theory Spec2Isabelle
  imports Main "HOL-Library.Word" "HOL-Library.Sublist"
begin

unbundle bit_operations_syntax

section \<open>JavaScript strings\<close>

text \<open>
  A JavaScript string is a sequence of UTF-16 code units, so a character of the model is a
  16-bit word and a string is a list of them. \<open>lit\<close> embeds an ASCII literal of the source.
\<close>

type_synonym jschar = "16 word"
type_synonym jsstring = "jschar list"

definition lit :: "string \<Rightarrow> jsstring" where
  "lit s = map (\<lambda>c. of_nat (of_char c)) s"

text \<open>
  \<open>String.prototype.trim\<close> removes, at both ends, the code points of the ECMAScript
  productions WhiteSpace (TAB, VT, FF, ZWNBSP and the Unicode category Zs) and LineTerminator
  (LF, CR, LS, PS). All of them lie in the Basic Multilingual Plane, so they are single
  code units.
\<close>

definition isWhiteSpace :: "jschar \<Rightarrow> bool" where
  "isWhiteSpace c \<longleftrightarrow>
     c = 0x0009 \<or> c = 0x000B \<or> c = 0x000C \<or> c = 0xFEFF \<or>
     c = 0x0020 \<or> c = 0x00A0 \<or> c = 0x1680 \<or> (0x2000 \<le> c \<and> c \<le> 0x200A) \<or>
     c = 0x202F \<or> c = 0x205F \<or> c = 0x3000"

definition isLineTerminator :: "jschar \<Rightarrow> bool" where
  "isLineTerminator c \<longleftrightarrow> c = 0x000A \<or> c = 0x000D \<or> c = 0x2028 \<or> c = 0x2029"

definition isTrimChar :: "jschar \<Rightarrow> bool" where
  "isTrimChar c \<longleftrightarrow> isWhiteSpace c \<or> isLineTerminator c"

definition trimStart :: "jsstring \<Rightarrow> jsstring" where
  "trimStart s = dropWhile isTrimChar s"

definition trimEnd :: "jsstring \<Rightarrow> jsstring" where
  "trimEnd s = rev (dropWhile isTrimChar (rev s))"

definition trim :: "jsstring \<Rightarrow> jsstring" where
  "trim s = trimEnd (trimStart s)"

text \<open>A string in a condition is truthy when it is not empty.\<close>

definition truthy :: "jsstring \<Rightarrow> bool" where
  "truthy s \<longleftrightarrow> s \<noteq> []"

text \<open>
  The specification's notion of a blank query: every code unit is one that \<open>trim\<close>
  removes (the empty string included).
\<close>

definition blank :: "jsstring \<Rightarrow> bool" where
  "blank s = list_all isTrimChar s"

section \<open>JavaScript values\<close>

text \<open>
  The values that the declared types of types.ts range over: strings, arrays, objects, and
  \<open>undefined\<close> for an optional property that is present without a value. An object is the
  list of its own enumerable string-keyed properties in the order in which
  \<open>JSON.stringify\<close> and \<open>Object.keys\<close> enumerate them, which for names that are not
  array indices is the order of their creation. An object may have properties beyond the
  declared ones; the model covers those whose values are of these kinds.
\<close>

datatype jsvalue =
    JUndefined
  | JString jsstring
  | JArray "jsvalue list"
  | JObject "(jsstring \<times> jsvalue) list"

text \<open>Reading a property: the value stored under the name, \<open>undefined\<close> when there is none.\<close>

definition getProperty :: "jsstring \<Rightarrow> (jsstring \<times> jsvalue) list \<Rightarrow> jsvalue" where
  "getProperty k ps = (case map_of ps k of None \<Rightarrow> JUndefined | Some v \<Rightarrow> v)"

definition isString :: "jsvalue \<Rightarrow> bool" where
  "isString v = (case v of JString t \<Rightarrow> True | _ \<Rightarrow> False)"

definition isStringArray :: "jsvalue \<Rightarrow> bool" where
  "isStringArray v = (case v of JArray xs \<Rightarrow> list_all isString xs | _ \<Rightarrow> False)"

section \<open>Data model (types.ts)\<close>

text \<open>
  The interface \<open>PlaceResult\<close> is erased at run time: a place is the object that the
  collaborator built, with its properties in the order in which they were created there.
  \<open>isPlaceResult\<close> says that an object has the declared type: \<open>title\<close> and \<open>uri\<close> are
  strings, \<open>summary\<close> is a string or missing, \<open>reviewSnippets\<close> an array of strings or
  missing.
\<close>

type_synonym PlaceResult = "(jsstring \<times> jsvalue) list"

definition isPlaceResult :: "PlaceResult \<Rightarrow> bool" where
  "isPlaceResult p \<longleftrightarrow>
     distinct (map fst p)
   \<and> isString (getProperty (lit ''title'') p)
   \<and> isString (getProperty (lit ''uri'') p)
   \<and> (getProperty (lit ''summary'') p = JUndefined \<or> isString (getProperty (lit ''summary'') p))
   \<and> (getProperty (lit ''reviewSnippets'') p = JUndefined
        \<or> isStringArray (getProperty (lit ''reviewSnippets'') p))"

record SearchState =
  query :: jsstring
  results :: "PlaceResult list"
  analysis :: jsstring
  isLoading :: bool
  error :: "jsstring option"

text \<open>
  A JavaScript number is an IEEE-754 double. The program only copies the two coordinates,
  so a number is modelled by its 64-bit pattern.
\<close>

type_synonym number = "64 word"

record GeolocationData =
  latitude :: number
  longitude :: number

text \<open>
  What the promise of \<open>geminiService.searchPlaces\<close> settles with: on fulfilment an
  object with \<open>places\<close> and \<open>analysis\<close>, on rejection any thrown value. A thrown value
  is an instance of \<open>Error\<close>, with its \<open>message\<close> (the empty string for \<open>new Error()\<close>),
  or some other value, which may have a \<open>message\<close> of its own (as a rejected plain object
  \<open>{message: ...}\<close> has) or none.
\<close>

datatype SearchData = SearchData (places: "PlaceResult list") (data_analysis: jsstring)

datatype thrown = ErrorInstance (message: jsstring) | OtherValue (ownMessage: "jsstring option")

text \<open>The link element that \<open>downloadResults\<close> creates and clicks.\<close>

record Link =
  href :: jsstring
  download :: jsstring

section \<open>The application state\<close>

text \<open>
  The component state of \<open>App\<close> (\<open>state\<close>, \<open>location\<close>) and of \<open>SearchHero\<close>
  (\<open>inputValue\<close>), together with a log of the effects on the environment:
  the invocations of \<open>geminiService.searchPlaces\<close> with their arguments (oldest first),
  the number of promises not yet settled, the calls of \<open>getCurrentPosition\<close>, whether
  its callback is still outstanding, and the links clicked for download.
\<close>

record App =
  state :: SearchState
  location :: "GeolocationData option"
  inputValue :: jsstring
  searchCalls :: "(jsstring \<times> GeolocationData option) list"
  inflight :: nat
  geoRequests :: nat
  geoPending :: bool
  downloads :: "Link list"

text \<open>
  The initial values of the three \<open>useState\<close> calls, and the mount effect of lines 118-132:
  one call of \<open>getCurrentPosition\<close> when the navigator has a geolocation object.
\<close>

definition initialState :: SearchState where
  "initialState = \<lparr>query = [], results = [], analysis = [], isLoading = False, error = None\<rparr>"

definition mount :: "bool \<Rightarrow> App" where
  "mount hasGeolocation =
     \<lparr>state = initialState, location = None, inputValue = [],
      searchCalls = [], inflight = 0,
      geoRequests = (if hasGeolocation then 1 else 0), geoPending = hasGeolocation,
      downloads = []\<rparr>"

section \<open>Event handlers\<close>

text \<open>
  \<open>handleSearch\<close> (lines 134-152) is an async function. Its synchronous part runs up to the
  \<open>await\<close>: the state update of line 135 and the call of the collaborator with the query
  and the location of the closure (line 138). The two continuations run when the promise
  settles: lines 139-144 on fulfilment, lines 146-150 on rejection.
\<close>

definition handleSearch :: "jsstring \<Rightarrow> App \<Rightarrow> App" where
  "handleSearch q app =
     app\<lparr>state := (state app)\<lparr>isLoading := True, error := None, query := q\<rparr>,
         searchCalls := searchCalls app @ [(q, location app)],
         inflight := Suc (inflight app)\<rparr>"

definition handleSearch_then :: "SearchData \<Rightarrow> App \<Rightarrow> App" where
  "handleSearch_then d app =
     app\<lparr>state := (state app)\<lparr>isLoading := False, results := places d,
                                analysis := data_analysis d\<rparr>,
         inflight := inflight app - 1\<rparr>"

definition errorMessage :: "thrown \<Rightarrow> jsstring" where
  "errorMessage err =
     (case err of
        ErrorInstance m \<Rightarrow> m
      | OtherValue m \<Rightarrow> lit ''An unexpected error occurred'')"

definition handleSearch_catch :: "thrown \<Rightarrow> App \<Rightarrow> App" where
  "handleSearch_catch err app =
     app\<lparr>state := (state app)\<lparr>isLoading := False, error := Some (errorMessage err)\<rparr>,
         inflight := inflight app - 1\<rparr>"

text \<open>
  \<open>SearchHero.handleSubmit\<close> (lines 33-36); \<open>onSearch\<close> is \<open>handleSearch\<close>. The call of
  \<open>preventDefault\<close> only keeps the browser from navigating and touches no state. The
  trimmed string is used for the test alone: the argument of \<open>onSearch\<close> is \<open>inputValue\<close>.
\<close>

definition handleSubmit :: "App \<Rightarrow> App" where
  "handleSubmit app =
     (if truthy (trim (inputValue app)) then handleSearch (inputValue app) app else app)"

text \<open>The input's \<open>onChange\<close> (line 54) and the two geolocation callbacks (lines 121-129).\<close>

definition setInputValue :: "jsstring \<Rightarrow> App \<Rightarrow> App" where
  "setInputValue v app = app\<lparr>inputValue := v\<rparr>"

definition positionSuccess :: "number \<Rightarrow> number \<Rightarrow> App \<Rightarrow> App" where
  "positionSuccess lat lon app =
     app\<lparr>location := Some \<lparr>latitude = lat, longitude = lon\<rparr>, geoPending := False\<rparr>"

definition positionError :: "App \<Rightarrow> App" where
  "positionError app = app\<lparr>geoPending := False\<rparr>"

section \<open>JSON.stringify\<close>

definition isLeadingSurrogate :: "jschar \<Rightarrow> bool" where
  "isLeadingSurrogate c \<longleftrightarrow> 0xD800 \<le> c \<and> c \<le> 0xDBFF"

definition isTrailingSurrogate :: "jschar \<Rightarrow> bool" where
  "isTrailingSurrogate c \<longleftrightarrow> 0xDC00 \<le> c \<and> c \<le> 0xDFFF"

text \<open>\<open>UnicodeEscape\<close>: backslash, \<open>u\<close> and four lower-case hexadecimal digits.\<close>

definition hexLower :: "jschar \<Rightarrow> jschar" where
  "hexLower d = (if d < 10 then 0x30 + d else 0x61 + (d - 10))"

definition UnicodeEscape :: "jschar \<Rightarrow> jsstring" where
  "UnicodeEscape c =
     [0x5C, 0x75, hexLower (drop_bit 12 c AND 0xF), hexLower (drop_bit 8 c AND 0xF),
      hexLower (drop_bit 4 c AND 0xF), hexLower (c AND 0xF)]"

text \<open>
  One code point of \<open>QuoteJSONString\<close> that is a single code unit: the table of two-character
  escapes (backspace, tab, line feed, form feed, carriage return, double quote, backslash),
  a Unicode escape for the other control characters and for a surrogate that stands alone,
  and the code unit itself otherwise.
\<close>

definition quoteCodeUnit :: "jschar \<Rightarrow> jsstring" where
  "quoteCodeUnit c =
     (if c = 0x08 then [0x5C, 0x62]
      else if c = 0x09 then [0x5C, 0x74]
      else if c = 0x0A then [0x5C, 0x6E]
      else if c = 0x0C then [0x5C, 0x66]
      else if c = 0x0D then [0x5C, 0x72]
      else if c = 0x22 then [0x5C, 0x22]
      else if c = 0x5C then [0x5C, 0x5C]
      else if c < 0x20 \<or> isLeadingSurrogate c \<or> isTrailingSurrogate c then UnicodeEscape c
      else [c])"

text \<open>
  The string is read by code points: a leading surrogate followed by a trailing one is one
  code point and is copied; any other surrogate stands alone.
\<close>

fun quoteCodePoints :: "jsstring \<Rightarrow> jsstring" where
  "quoteCodePoints [] = []"
| "quoteCodePoints [c] = quoteCodeUnit c"
| "quoteCodePoints (c # d # cs) =
     (if isLeadingSurrogate c \<and> isTrailingSurrogate d then c # d # quoteCodePoints cs
      else quoteCodeUnit c @ quoteCodePoints (d # cs))"

definition QuoteJSONString :: "jsstring \<Rightarrow> jsstring" where
  "QuoteJSONString s = 0x22 # quoteCodePoints s @ [0x22]"

fun join :: "jsstring \<Rightarrow> jsstring list \<Rightarrow> jsstring" where
  "join sep [] = []"
| "join sep [x] = x"
| "join sep (x # y # ys) = x @ sep @ join sep (y # ys)"

text \<open>
  The closing steps shared by \<open>SerializeJSONArray\<close> and \<open>SerializeJSONObject\<close>:
  \<open>stepback\<close> is the indentation outside the brackets, \<open>gap\<close> one level of
  indentation, \<open>partial\<close> the serialised elements or members.
\<close>

definition wrapJSON :: "jsstring \<Rightarrow> jsstring \<Rightarrow> jschar \<Rightarrow> jschar \<Rightarrow> jsstring list \<Rightarrow> jsstring" where
  "wrapJSON gap stepback opening closing partial =
     (if partial = [] then [opening, closing]
      else if gap = [] then opening # join [0x2C] partial @ [closing]
      else opening # 0x0A # (stepback @ gap) @ join (0x2C # 0x0A # (stepback @ gap)) partial
             @ 0x0A # stepback @ [closing])"

text \<open>
  \<open>SerializeJSONProperty\<close> yields no text (\<open>None\<close>) for \<open>undefined\<close>. An array writes
  \<open>null\<close> for such an element; an object leaves such a property out.
\<close>

fun SerializeJSONProperty :: "jsstring \<Rightarrow> jsstring \<Rightarrow> jsvalue \<Rightarrow> jsstring option"
and SerializeJSONArray :: "jsstring \<Rightarrow> jsstring \<Rightarrow> jsvalue list \<Rightarrow> jsstring list"
and SerializeJSONObject :: "jsstring \<Rightarrow> jsstring \<Rightarrow> (jsstring \<times> jsvalue) list \<Rightarrow> jsstring list"
where
  "SerializeJSONProperty gap indent JUndefined = None"
| "SerializeJSONProperty gap indent (JString s) = Some (QuoteJSONString s)"
| "SerializeJSONProperty gap indent (JArray xs) =
     Some (wrapJSON gap indent 0x5B 0x5D (SerializeJSONArray gap (indent @ gap) xs))"
| "SerializeJSONProperty gap indent (JObject kvs) =
     Some (wrapJSON gap indent 0x7B 0x7D (SerializeJSONObject gap (indent @ gap) kvs))"
| "SerializeJSONArray gap indent [] = []"
| "SerializeJSONArray gap indent (x # xs) =
     (case SerializeJSONProperty gap indent x of None \<Rightarrow> lit ''null'' | Some t \<Rightarrow> t)
     # SerializeJSONArray gap indent xs"
| "SerializeJSONObject gap indent [] = []"
| "SerializeJSONObject gap indent ((k, v) # kvs) =
     (case SerializeJSONProperty gap indent v of
        None \<Rightarrow> SerializeJSONObject gap indent kvs
      | Some t \<Rightarrow>
          (QuoteJSONString k @ [0x3A] @ (if gap = [] then [] else [0x20]) @ t)
          # SerializeJSONObject gap indent kvs)"

text \<open>
  \<open>JSON.stringify(value, null, space)\<close> for a numeric \<open>space\<close>: at most ten spaces of
  indentation; the result is \<open>undefined\<close> (\<open>None\<close>) when the value is.
\<close>

definition JSON_stringify :: "jsvalue \<Rightarrow> nat \<Rightarrow> jsstring option" where
  "JSON_stringify v space = SerializeJSONProperty (replicate (min 10 space) 0x20) [] v"

section \<open>encodeURIComponent\<close>

text \<open>
  Letters, digits and \<open>- _ . ! ~ * ' ( )\<close> are copied; every other code point is written as
  the percent-escaped octets of its UTF-8 encoding; a surrogate that stands alone raises
  URIError, which is \<open>None\<close> here.
\<close>

definition uriUnreserved :: "jschar \<Rightarrow> bool" where
  "uriUnreserved c \<longleftrightarrow>
     (0x41 \<le> c \<and> c \<le> 0x5A) \<or> (0x61 \<le> c \<and> c \<le> 0x7A) \<or> (0x30 \<le> c \<and> c \<le> 0x39) \<or>
     c = 0x2D \<or> c = 0x5F \<or> c = 0x2E \<or> c = 0x21 \<or> c = 0x7E \<or> c = 0x2A \<or>
     c = 0x27 \<or> c = 0x28 \<or> c = 0x29"

definition hexUpper :: "nat \<Rightarrow> jschar" where
  "hexUpper d = (if d < 10 then of_nat (0x30 + d) else of_nat (0x41 + (d - 10)))"

definition percentOctet :: "nat \<Rightarrow> jsstring" where
  "percentOctet b = [0x25, hexUpper (b div 16), hexUpper (b mod 16)]"

definition utf8 :: "nat \<Rightarrow> nat list" where
  "utf8 cp =
     (if cp < 0x80 then [cp]
      else if cp < 0x800 then [0xC0 + cp div 0x40, 0x80 + cp mod 0x40]
      else if cp < 0x10000 then
        [0xE0 + cp div 0x1000, 0x80 + (cp div 0x40) mod 0x40, 0x80 + cp mod 0x40]
      else
        [0xF0 + cp div 0x40000, 0x80 + (cp div 0x1000) mod 0x40,
         0x80 + (cp div 0x40) mod 0x40, 0x80 + cp mod 0x40])"

definition percentEncode :: "nat \<Rightarrow> jsstring" where
  "percentEncode cp = concat (map percentOctet (utf8 cp))"

definition pairCodePoint :: "jschar \<Rightarrow> jschar \<Rightarrow> nat" where
  "pairCodePoint c d = (unat c - 0xD800) * 0x400 + (unat d - 0xDC00) + 0x10000"

fun encodeURIComponent :: "jsstring \<Rightarrow> jsstring option" where
  "encodeURIComponent [] = Some []"
| "encodeURIComponent [c] =
     (if uriUnreserved c then Some [c]
      else if isLeadingSurrogate c \<or> isTrailingSurrogate c then None
      else Some (percentEncode (unat c)))"
| "encodeURIComponent (c # d # cs) =
     (if uriUnreserved c then map_option ((#) c) (encodeURIComponent (d # cs))
      else if isLeadingSurrogate c then
        (if isTrailingSurrogate d
         then map_option ((@) (percentEncode (pairCodePoint c d))) (encodeURIComponent cs)
         else None)
      else if isTrailingSurrogate c then None
      else map_option ((@) (percentEncode (unat c))) (encodeURIComponent (d # cs)))"

section \<open>The export action\<close>

text \<open>
  \<open>downloadResults\<close> (lines 154-162). \<open>exportText\<close> is \<open>dataStr\<close> as
  \<open>encodeURIComponent\<close> reads it: the text of \<open>JSON.stringify(state.results, null, 2)\<close>,
  where \<open>undefined\<close> would be read as the string "undefined". When \<open>encodeURIComponent\<close>
  raises, the handler is left before the link is created. No line of it calls a state
  setter.
\<close>

definition exportText :: "PlaceResult list \<Rightarrow> jsstring" where
  "exportText rs =
     (case JSON_stringify (JArray (map JObject rs)) 2 of
        None \<Rightarrow> lit ''undefined''
      | Some t \<Rightarrow> t)"

definition downloadResults :: "App \<Rightarrow> App" where
  "downloadResults app =
     (let dataStr = exportText (results (state app)) in
      case encodeURIComponent dataStr of
        None \<Rightarrow> app
      | Some encoded \<Rightarrow>
          let dataUri = lit ''data:application/json;charset=utf-8,'' @ encoded;
              exportFileDefaultName = lit ''map_data_export.json''
          in app\<lparr>downloads :=
                   downloads app @ [\<lparr>href = dataUri, download = exportFileDefaultName\<rparr>]\<rparr>)"

section \<open>What is rendered\<close>

text \<open>
  The conditions of the markup: the submit button's \<open>disabled\<close> attribute (line 60), the
  error banner (line 171), the results panel with the export button (line 180), the
  landing cards (line 237) and the spinner (line 257). A string or null in a condition
  counts as true when it is a non-empty string.
\<close>

record View =
  submitDisabled :: bool
  showError :: bool
  showResults :: bool
  showLanding :: bool
  showSpinner :: bool

definition errorTruthy :: "jsstring option \<Rightarrow> bool" where
  "errorTruthy e = (case e of None \<Rightarrow> False | Some m \<Rightarrow> truthy m)"

definition render :: "App \<Rightarrow> View" where
  "render app =
     \<lparr>submitDisabled = isLoading (state app),
      showError = errorTruthy (error (state app)),
      showResults = (length (results (state app)) > 0 \<or> truthy (analysis (state app))),
      showLanding = (\<not> isLoading (state app) \<and> length (results (state app)) = 0
                     \<and> \<not> errorTruthy (error (state app)) \<and> \<not> truthy (query (state app))),
      showSpinner = isLoading (state app)\<rparr>"

section \<open>Runs of the application\<close>

text \<open>
  The events the page reacts to. The browser delivers each only when it can occur: the
  form's submit event while the submit button is not disabled, a click on the export
  button while the results panel is rendered, the settlement of a promise while one is
  outstanding, and a geolocation callback once, after \<open>getCurrentPosition\<close> was called.
\<close>

datatype event =
    Change jsstring
  | Submit
  | Resolved SearchData
  | Rejected thrown
  | GeoSuccess number number
  | GeoError
  | ClickExport

fun step :: "App \<Rightarrow> event \<Rightarrow> App option" where
  "step app (Change v) = Some (setInputValue v app)"
| "step app Submit =
     (if submitDisabled (render app) then None else Some (handleSubmit app))"
| "step app (Resolved d) =
     (if inflight app = 0 then None else Some (handleSearch_then d app))"
| "step app (Rejected err) =
     (if inflight app = 0 then None else Some (handleSearch_catch err app))"
| "step app (GeoSuccess lat lon) =
     (if geoPending app then Some (positionSuccess lat lon app) else None)"
| "step app GeoError =
     (if geoPending app then Some (positionError app) else None)"
| "step app ClickExport =
     (if showResults (render app) then Some (downloadResults app) else None)"

fun run :: "App \<Rightarrow> event list \<Rightarrow> App option" where
  "run app [] = Some app"
| "run app (e # es) = (case step app e of None \<Rightarrow> None | Some app' \<Rightarrow> run app' es)"

section \<open>Notions used in the statements\<close>

text \<open>
  The invariant of the runs from the mounted page with which the properties of the
  reachable states are proved: the number of outstanding promises follows \<open>isLoading\<close>,
  a loading state has no error, a state with an empty query is the initial one, a pending
  geolocation request means that no location is stored, \<open>getCurrentPosition\<close> was called
  once or never, and every collaborator call carried no location or the stored one.
\<close>

definition invariant :: "bool \<Rightarrow> App \<Rightarrow> bool" where
  "invariant g s \<longleftrightarrow>
     inflight s = (if isLoading (state s) then 1 else 0)
   \<and> (isLoading (state s) \<longrightarrow> error (state s) = None)
   \<and> (query (state s) = [] \<longrightarrow> state s = initialState)
   \<and> (geoPending s \<longrightarrow> g \<and> location s = None)
   \<and> geoRequests s = (if g then 1 else 0)
   \<and> list_all (\<lambda>c. snd c = None \<or> snd c = location s) (searchCalls s)"

text \<open>
  The three display branches of the specification's data model: the results panel, the
  error banner, and neither of them; and "exactly one of them holds".
\<close>

definition displayBranches :: "App \<Rightarrow> bool list" where
  "displayBranches s =
     [showResults (render s), showError (render s),
      \<not> showResults (render s) \<and> \<not> showError (render s)]"

definition exactlyOne :: "bool list \<Rightarrow> bool" where
  "exactlyOne bs \<longleftrightarrow> length (filter id bs) = 1"

text \<open>
  The place of the specification's examples, \<open>{title: "Joe's Cafe", uri: "https://x"}\<close>, and
  a place built with \<open>uri\<close> first.
\<close>

definition cafe :: PlaceResult where
  "cafe = [(lit ''title'', JString (lit ''Joe's Cafe'')), (lit ''uri'', JString (lit ''https://x''))]"

definition bakery :: PlaceResult where
  "bakery = [(lit ''uri'', JString (lit ''https://y'')), (lit ''title'', JString (lit ''B''))]"

text \<open>
  The reading of "the failure's message, or the generic string when it carries none" that
  the specification's failure has, "an error carrying an optional human-readable
  message": a failure carries a message when its message text is there and not empty.
\<close>

definition carriedMessage :: "thrown \<Rightarrow> jsstring option" where
  "carriedMessage err =
     (case err of
        ErrorInstance m \<Rightarrow> (if m = [] then None else Some m)
      | OtherValue None \<Rightarrow> None
      | OtherValue (Some m) \<Rightarrow> (if m = [] then None else Some m))"

definition claimedError :: "thrown \<Rightarrow> jsstring" where
  "claimedError err =
     (case carriedMessage err of
        None \<Rightarrow> lit ''An unexpected error occurred''
      | Some m \<Rightarrow> m)"

text \<open>
  The code units that \<open>QuoteJSONString\<close> does not copy, and the strings it copies
  unchanged: those without such a code point, where a leading surrogate followed by a
  trailing one is one code point and is copied.
\<close>

definition jsonEscaped :: "jschar \<Rightarrow> bool" where
  "jsonEscaped c \<longleftrightarrow>
     c < 0x20 \<or> c = 0x22 \<or> c = 0x5C \<or> isLeadingSurrogate c \<or> isTrailingSurrogate c"

fun jsonVerbatim :: "jsstring \<Rightarrow> bool" where
  "jsonVerbatim [] = True"
| "jsonVerbatim [c] = (\<not> jsonEscaped c)"
| "jsonVerbatim (c # d # cs) =
     (if isLeadingSurrogate c \<and> isTrailingSurrogate d then jsonVerbatim cs
      else \<not> jsonEscaped c \<and> jsonVerbatim (d # cs))"

text \<open>
  A string without a surrogate that stands alone (\<open>String.prototype.isWellFormed\<close>).
\<close>

definition isSurrogate :: "jschar \<Rightarrow> bool" where
  "isSurrogate c \<longleftrightarrow> isLeadingSurrogate c \<or> isTrailingSurrogate c"

fun wellFormed :: "jsstring \<Rightarrow> bool" where
  "wellFormed [] = True"
| "wellFormed [c] = (\<not> isSurrogate c)"
| "wellFormed (c # d # cs) =
     (if isLeadingSurrogate c \<and> isTrailingSurrogate d then wellFormed cs
      else \<not> isSurrogate c \<and> wellFormed (d # cs))"

section \<open>Properties of trimming\<close>

lemma trim_empty_iff: "trim s = [] \<longleftrightarrow> blank s"
proof
  assume e: "trim s = []"
  have all: "\<forall>c \<in> set (dropWhile isTrimChar s). isTrimChar c"
    using e by (simp add: trim_def trimEnd_def trimStart_def)
  have "dropWhile isTrimChar s = []"
  proof (cases "dropWhile isTrimChar s")
    case Nil
    then show ?thesis .
  next
    case (Cons x xs)
    then have "\<not> isTrimChar x"
      by (metis hd_dropWhile list.sel(1) list.distinct(1))
    moreover have "isTrimChar x" using all Cons by simp
    ultimately show ?thesis by simp
  qed
  then show "blank s"
    by (simp add: blank_def list_all_iff)
next
  assume "blank s"
  then have d: "dropWhile isTrimChar s = []"
    by (simp add: blank_def list_all_iff)
  show "trim s = []"
    unfolding trim_def trimEnd_def trimStart_def d by simp
qed

lemma blank_imp_not_truthy_trim: "blank s \<Longrightarrow> \<not> truthy (trim s)"
  by (simp add: truthy_def trim_empty_iff)

lemma not_blank_imp_truthy_trim: "\<not> blank s \<Longrightarrow> truthy (trim s)"
  by (simp add: truthy_def trim_empty_iff)

lemma lit_simps: "lit [] = []" "lit (c # cs) = of_nat (of_char c) # lit cs"
  by (simp_all add: lit_def)

lemmas char_class_defs = isTrimChar_def isWhiteSpace_def isLineTerminator_def

lemmas trim_eval = trim_def trimEnd_def trimStart_def truthy_def lit_simps char_class_defs

section \<open>Dispatching a search\<close>

text \<open>
  C1. For every query string \<open>q\<close> that is not blank, dispatching the search sets
  \<open>isLoading\<close> to true, \<open>error\<close> to null and \<open>query\<close> to \<open>q\<close> and leaves \<open>results\<close>
  and \<open>analysis\<close> as they were, both for \<open>handleSearch q\<close> itself and for the form's
  \<open>handleSubmit\<close> on the input \<open>q\<close>. This is the state when the handler returns: the
  collaborator's promise is counted as not yet settled.
\<close>

theorem dispatch_sets_loading:
  assumes "\<not> blank q"
  shows "state (handleSearch q app) = (state app)\<lparr>isLoading := True, error := None, query := q\<rparr>
       \<and> handleSubmit (app\<lparr>inputValue := q\<rparr>) = handleSearch q (app\<lparr>inputValue := q\<rparr>)
       \<and> isLoading (state (handleSubmit (app\<lparr>inputValue := q\<rparr>))) = True
       \<and> error (state (handleSubmit (app\<lparr>inputValue := q\<rparr>))) = None
       \<and> query (state (handleSubmit (app\<lparr>inputValue := q\<rparr>))) = q
       \<and> results (state (handleSubmit (app\<lparr>inputValue := q\<rparr>))) = results (state app)
       \<and> analysis (state (handleSubmit (app\<lparr>inputValue := q\<rparr>))) = analysis (state app)
       \<and> inflight (handleSubmit (app\<lparr>inputValue := q\<rparr>)) = Suc (inflight app)"
  using not_blank_imp_truthy_trim [OF assms]
  by (simp add: handleSubmit_def handleSearch_def)

theorem dispatch_sets_loading_witness:
  "\<not> blank (lit ''cafes'')
   \<and> state (handleSubmit ((mount True)\<lparr>inputValue := lit ''cafes''\<rparr>))
       = \<lparr>query = lit ''cafes'', results = [], analysis = [], isLoading = True, error = None\<rparr>"
proof -
  have nb: "\<not> blank (lit ''cafes'')"
    by (simp add: blank_def lit_simps char_class_defs)
  show ?thesis
    using nb dispatch_sets_loading [OF nb, of "mount True"]
    by (simp add: handleSearch_def mount_def initialState_def)
qed

text \<open>
  C4. For every blank input (empty, or made of white space and line terminators only),
  submitting the form changes nothing: the whole application state, with the session
  state, the log of collaborator calls and the count of outstanding promises, is the one
  before the submit.
\<close>

theorem blank_submit_is_noop:
  assumes "blank (inputValue app)"
  shows "handleSubmit app = app"
  using blank_imp_not_truthy_trim [OF assms]
  by (simp add: handleSubmit_def)

theorem blank_submit_is_noop_witness:
  "blank (lit '' '') \<and> blank []
   \<and> handleSubmit ((mount True)\<lparr>inputValue := lit '' ''\<rparr>) = (mount True)\<lparr>inputValue := lit '' ''\<rparr>
   \<and> searchCalls (handleSubmit ((mount True)\<lparr>inputValue := lit '' ''\<rparr>)) = []"
proof -
  have b: "blank (inputValue ((mount True)\<lparr>inputValue := lit '' ''\<rparr>))"
    by (simp add: blank_def lit_simps char_class_defs)
  show ?thesis
    using b blank_submit_is_noop [OF b]
    by (simp add: mount_def blank_def)
qed

section \<open>Invariant of the runs\<close>

lemmas handler_defs = handleSubmit_def handleSearch_def handleSearch_then_def
  handleSearch_catch_def setInputValue_def positionSuccess_def positionError_def

lemma initialState_sel:
  "query initialState = []" "results initialState = []" "analysis initialState = []"
  "isLoading initialState = False" "error initialState = None"
  by (simp_all add: initialState_def)

lemma downloadResults_frame:
  "state (downloadResults s) = state s" "location (downloadResults s) = location s"
  "inputValue (downloadResults s) = inputValue s" "searchCalls (downloadResults s) = searchCalls s"
  "inflight (downloadResults s) = inflight s" "geoRequests (downloadResults s) = geoRequests s"
  "geoPending (downloadResults s) = geoPending s"
  by (simp_all add: downloadResults_def Let_def split: option.splits)

lemma invariant_mount: "invariant g (mount g)"
  by (simp add: invariant_def mount_def initialState_def)

lemma truthy_trim_nonempty: "truthy (trim q) \<Longrightarrow> q \<noteq> []"
  by (auto simp: truthy_def trim_def trimEnd_def trimStart_def)

lemma invariant_step:
  assumes "invariant g s" and "step s e = Some s'"
  shows "invariant g s'"
proof (cases e)
  case (Change v)
  then show ?thesis using assms by (auto simp: invariant_def handler_defs)
next
  case Submit
  then show ?thesis using assms
    by (auto simp: invariant_def handler_defs render_def list_all_iff
             dest: truthy_trim_nonempty split: if_splits)
next
  case (Resolved d)
  then show ?thesis using assms
    by (auto simp: invariant_def handler_defs initialState_sel split: if_splits)
next
  case (Rejected err)
  then show ?thesis using assms
    by (auto simp: invariant_def handler_defs initialState_sel split: if_splits)
next
  case (GeoSuccess lat lon)
  then show ?thesis using assms
    by (auto simp: invariant_def handler_defs list_all_iff split: if_splits)
next
  case GeoError
  then show ?thesis using assms
    by (auto simp: invariant_def handler_defs initialState_sel split: if_splits)
next
  case ClickExport
  then show ?thesis using assms
    by (auto simp: invariant_def downloadResults_frame split: if_splits)
qed

lemma invariant_run:
  "invariant g s \<Longrightarrow> run s es = Some s' \<Longrightarrow> invariant g s'"
proof (induction es arbitrary: s)
  case Nil
  then show ?case by simp
next
  case (Cons e es)
  then obtain s1 where s1: "step s e = Some s1" and r: "run s1 es = Some s'"
    by (auto split: option.splits)
  from invariant_step [OF Cons.prems(1) s1] r show ?case
    by (rule Cons.IH)
qed

lemma reachable_invariant: "run (mount g) es = Some s \<Longrightarrow> invariant g s"
  using invariant_mount by (rule invariant_run)

lemma settled_step:
  assumes "\<not> geoPending s" and "step s e = Some s'"
  shows "\<not> geoPending s' \<and> location s' = location s \<and> geoRequests s' = geoRequests s
       \<and> (\<exists>new. searchCalls s' = searchCalls s @ new \<and> list_all (\<lambda>c. snd c = location s) new)"
proof (cases e)
  case Submit
  then show ?thesis using assms
    by (auto simp: handler_defs split: if_splits)
next
  case ClickExport
  then show ?thesis using assms
    by (auto simp: downloadResults_frame split: if_splits)
qed (use assms in \<open>auto simp: handler_defs split: if_splits\<close>)

lemma settled_run:
  assumes "\<not> geoPending s" and "run s es = Some s'"
  shows "\<not> geoPending s' \<and> location s' = location s \<and> geoRequests s' = geoRequests s
       \<and> (\<exists>new. searchCalls s' = searchCalls s @ new \<and> list_all (\<lambda>c. snd c = location s) new)"
  using assms
proof (induction es arbitrary: s)
  case Nil
  then show ?case by simp
next
  case (Cons e es)
  then obtain s1 where s1: "step s e = Some s1" and r: "run s1 es = Some s'"
    by (auto split: option.splits)
  note a = settled_step [OF Cons.prems(1) s1]
  then have b: "\<not> geoPending s1" by simp
  note c = Cons.IH [OF b r]
  from a obtain n1 where n1: "searchCalls s1 = searchCalls s @ n1" "list_all (\<lambda>c. snd c = location s) n1"
    by blast
  from c obtain n2 where n2: "searchCalls s' = searchCalls s1 @ n2" "list_all (\<lambda>c. snd c = location s1) n2"
    by blast
  have "searchCalls s' = searchCalls s @ (n1 @ n2) \<and> list_all (\<lambda>c. snd c = location s) (n1 @ n2)"
    using n1 n2 a by simp
  then show ?case using a c by metis
qed

section \<open>Settlement of the collaborator's promise\<close>

text \<open>
  C2. In every run of the page, when the collaborator's promise is fulfilled with the places
  \<open>P\<close> and the analysis \<open>A\<close>, the session state that results has \<open>isLoading\<close> false,
  \<open>results\<close> equal to \<open>P\<close> (the same list, in the same order), \<open>analysis\<close> equal to \<open>A\<close>
  and \<open>error\<close> null. The handler itself leaves \<open>error\<close> as it is; it is null because
  the dispatch cleared it and no other promise can settle in between.
\<close>
theorem success_response_state:
  assumes "run (mount g) es = Some s"
      and "step s (Resolved (SearchData P A)) = Some s'"
  shows "isLoading (state s') = False \<and> results (state s') = P \<and> analysis (state s') = A
       \<and> error (state s') = None \<and> query (state s') = query (state s)"
proof -
  have inv: "invariant g s" using assms(1) by (rule reachable_invariant)
  have fl: "inflight s \<noteq> 0" using assms(2) by (auto split: if_splits)
  then have "isLoading (state s)" using inv by (auto simp: invariant_def split: if_splits)
  then have e: "error (state s) = None" using inv by (simp add: invariant_def)
  have "s' = handleSearch_then (SearchData P A) s" using assms(2) fl by simp
  then show ?thesis using e by (simp add: handleSearch_then_def)
qed

theorem success_response_state_witness:
  "run (mount True) [Change (lit ''cafes''), Submit] \<noteq> None
   \<and> map_option state (run (mount True)
        [Change (lit ''cafes''), Submit, Resolved (SearchData [cafe, bakery] (lit ''A''))])
     = Some \<lparr>query = lit ''cafes'', results = [cafe, bakery], analysis = lit ''A'',
             isLoading = False, error = None\<rparr>"
proof -
  define s where "s = handleSubmit (setInputValue (lit ''cafes'') (mount True))"
  have t: "truthy (trim (lit ''cafes''))"
    by (rule not_blank_imp_truthy_trim) (simp add: blank_def lit_simps char_class_defs)
  have r: "run (mount True) [Change (lit ''cafes''), Submit] = Some s"
    by (simp add: s_def render_def mount_def initialState_def setInputValue_def)
  have fl: "inflight s = 1" "state s = \<lparr>query = lit ''cafes'', results = [], analysis = [], isLoading = True, error = None\<rparr>"
    using t by (simp_all add: s_def handleSubmit_def handleSearch_def setInputValue_def mount_def initialState_def)
  define d where "d = SearchData [cafe, bakery] (lit ''A'')"
  have st: "step s (Resolved d) = Some (handleSearch_then d s)"
    using fl by simp
  have r2: "run (mount True) [Change (lit ''cafes''), Submit, Resolved d] = Some (handleSearch_then d s)"
    using r st by (simp add: s_def render_def mount_def initialState_def setInputValue_def)
  from success_response_state [OF r, of "[cafe, bakery]" "lit ''A''" "handleSearch_then d s"] st
  have "isLoading (state (handleSearch_then d s)) = False \<and> results (state (handleSearch_then d s)) = [cafe, bakery]
     \<and> analysis (state (handleSearch_then d s)) = lit ''A'' \<and> error (state (handleSearch_then d s)) = None
     \<and> query (state (handleSearch_then d s)) = query (state s)"
    by (simp add: d_def)
  then have "state (handleSearch_then d s) = \<lparr>query = lit ''cafes'', results = [cafe, bakery], analysis = lit ''A'',
             isLoading = False, error = None\<rparr>"
    using fl(2) by (cases "state (handleSearch_then d s)") simp
  then show ?thesis using r r2 by (simp add: d_def)
qed

text \<open>
  C3, as stated, fails: the handler tests whether the thrown value is an instance of
  \<open>Error\<close>, not whether it carries a message. A rejected plain object with the message
  "rate limited" gets the generic text, and \<open>new Error()\<close>, which carries no message, gets
  the empty string.
\<close>

theorem failure_message_counterexample:
  "map_option (error \<circ> state)
     (run (mount True)
        [Change (lit ''cafes''), Submit, Rejected (OtherValue (Some (lit ''rate limited'')))])
     = Some (Some (lit ''An unexpected error occurred''))
   \<and> claimedError (OtherValue (Some (lit ''rate limited''))) = lit ''rate limited''
   \<and> map_option (error \<circ> state)
       (run (mount True) [Change (lit ''cafes''), Submit, Rejected (ErrorInstance [])])
     = Some (Some [])
   \<and> claimedError (ErrorInstance []) = lit ''An unexpected error occurred''"
  by (simp add: trim_eval render_def mount_def initialState_def handler_defs errorMessage_def
        claimedError_def carriedMessage_def)

text \<open>
  C3, amended. When the collaborator's promise is rejected, \<open>isLoading\<close> becomes false;
  \<open>error\<close> becomes the message of the thrown value when that value is an instance of
  \<open>Error\<close> with a message that is not empty, and the fixed text
  "An unexpected error occurred" when it is not an instance of \<open>Error\<close>, whether it has
  a message of its own or not; \<open>results\<close>, \<open>analysis\<close> and \<open>query\<close> keep their values.
\<close>

theorem failure_response_state:
  "(m \<noteq> [] \<longrightarrow>
      state (handleSearch_catch (ErrorInstance m) app)
        = (state app)\<lparr>isLoading := False, error := Some m\<rparr>)
 \<and> state (handleSearch_catch (OtherValue own) app)
     = (state app)\<lparr>isLoading := False, error := Some (lit ''An unexpected error occurred'')\<rparr>
 \<and> isLoading (state (handleSearch_catch err app)) = False
 \<and> results (state (handleSearch_catch err app)) = results (state app)
 \<and> analysis (state (handleSearch_catch err app)) = analysis (state app)
 \<and> query (state (handleSearch_catch err app)) = query (state app)"
  by (simp add: handleSearch_catch_def errorMessage_def)

theorem failure_response_state_witness:
  "lit ''rate limited'' \<noteq> []
   \<and> state (handleSearch_catch (ErrorInstance (lit ''rate limited''))
        (handleSubmit (setInputValue (lit ''cafes'') (mount True))))
      = \<lparr>query = lit ''cafes'', results = [], analysis = [], isLoading = False,
         error = Some (lit ''rate limited'')\<rparr>"
proof -
  have n: "lit ''rate limited'' \<noteq> []" by (simp add: lit_simps)
  have s: "state (handleSubmit (setInputValue (lit ''cafes'') (mount True)))
      = \<lparr>query = lit ''cafes'', results = [], analysis = [], isLoading = True, error = None\<rparr>"
    by (simp add: trim_eval mount_def initialState_def handler_defs)
  show ?thesis
    using n s failure_response_state [where m = "lit ''rate limited''"
        and app = "handleSubmit (setInputValue (lit ''cafes'') (mount True))"]
    by simp
qed

section \<open>The export does not write the state\<close>

text \<open>
  C9. For every application state, the export action leaves the session state (\<open>query\<close>,
  \<open>results\<close>, \<open>analysis\<close>, \<open>isLoading\<close>, \<open>error\<close>) and the stored geolocation unchanged,
  and with them the input field, the record of collaborator calls and what is rendered.
\<close>
theorem export_leaves_state:
  "state (downloadResults app) = state app
 \<and> location (downloadResults app) = location app
 \<and> inputValue (downloadResults app) = inputValue app
 \<and> searchCalls (downloadResults app) = searchCalls app
 \<and> inflight (downloadResults app) = inflight app
 \<and> geoRequests (downloadResults app) = geoRequests app
 \<and> geoPending (downloadResults app) = geoPending app
 \<and> render (downloadResults app) = render app"
  by (simp add: downloadResults_frame render_def)

section \<open>The query passed to the collaborator\<close>

text \<open>
  C6, as stated, fails: the caller trims the input only to test it, and passes the
  input itself. On the input " cafes " the collaborator receives " cafes ", which is not
  its trimmed form "cafes".
\<close>
theorem collaborator_query_untrimmed_counterexample:
  "map_option searchCalls (run (mount True) [Change (lit '' cafes ''), Submit])
     = Some [(lit '' cafes '', None)]
   \<and> trim (lit '' cafes '') = lit ''cafes''
   \<and> lit '' cafes '' \<noteq> trim (lit '' cafes '')"
  by (simp add: trim_eval render_def mount_def initialState_def handler_defs)

text \<open>
  C6, amended. For every input that is not blank, the form passes the input string as it
  was typed, untrimmed, to the collaborator, together with the stored location: the query
  passed is not empty and not blank, and keeps its white space at both ends.
\<close>

theorem collaborator_query_is_input:
  assumes "\<not> blank (inputValue app)"
  shows "searchCalls (handleSubmit app) = searchCalls app @ [(inputValue app, location app)]
       \<and> inputValue app \<noteq> [] \<and> \<not> blank (fst (last (searchCalls (handleSubmit app))))"
proof -
  have t: "truthy (trim (inputValue app))" using assms by (rule not_blank_imp_truthy_trim)
  then have c: "searchCalls (handleSubmit app) = searchCalls app @ [(inputValue app, location app)]"
    by (simp add: handleSubmit_def handleSearch_def)
  show ?thesis using c assms truthy_trim_nonempty [OF t] by simp
qed

theorem collaborator_query_is_input_witness:
  "\<not> blank (lit '' cafes '')
   \<and> searchCalls (handleSubmit (setInputValue (lit '' cafes '') (mount True))) = [(lit '' cafes '', None)]"
proof -
  have nb: "\<not> blank (inputValue (setInputValue (lit '' cafes '') (mount True)))"
    by (simp add: blank_def setInputValue_def lit_simps char_class_defs)
  show ?thesis
    using nb collaborator_query_is_input [OF nb]
    by (simp add: setInputValue_def mount_def)
qed

section \<open>Display branches\<close>

text \<open>
  C5, as stated, fails: a search that fails after one that succeeded leaves the earlier
  results in place, so the results panel and the error banner are rendered together.
\<close>
theorem display_branches_counterexample:
  "map_option (exactlyOne \<circ> displayBranches)
     (run (mount True)
        [Change (lit ''cafes''), Submit, Resolved (SearchData [cafe] (lit ''A'')),
         Submit, Rejected (ErrorInstance (lit ''rate limited''))])
   = Some False"
  by (simp add: trim_eval render_def mount_def initialState_def handler_defs
        displayBranches_def exactlyOne_def errorTruthy_def errorMessage_def)

text \<open>
  C5, amended. In every reachable state \<open>isLoading\<close> and \<open>error\<close> are never both set, so
  the spinner and the error banner are never rendered together, and the landing cards
  exclude the results panel, the error banner and the spinner. The results panel and
  the error banner are rendered independently of each other.
\<close>

theorem loading_excludes_error:
  assumes "run (mount g) es = Some s"
  shows "\<not> (isLoading (state s) \<and> error (state s) \<noteq> None)
       \<and> \<not> (showSpinner (render s) \<and> showError (render s))
       \<and> (showLanding (render s) \<longrightarrow>
            \<not> showResults (render s) \<and> \<not> showError (render s) \<and> \<not> showSpinner (render s))"
proof -
  have inv: "invariant g s" using assms by (rule reachable_invariant)
  have a: "\<not> (isLoading (state s) \<and> error (state s) \<noteq> None)"
    using inv by (auto simp: invariant_def)
  have b: "\<not> (showSpinner (render s) \<and> showError (render s))"
    using a by (auto simp: render_def errorTruthy_def)
  have c: "showLanding (render s) \<longrightarrow>
            \<not> showResults (render s) \<and> \<not> showError (render s) \<and> \<not> showSpinner (render s)"
    using inv by (auto simp: invariant_def render_def truthy_def initialState_sel)
  show ?thesis using a b c by blast
qed

theorem loading_excludes_error_witness:
  "run (mount True) [Change (lit ''cafes''), Submit, Rejected (OtherValue None)]
     = Some (handleSearch_catch (OtherValue None) (handleSubmit (setInputValue (lit ''cafes'') (mount True))))
   \<and> showError (render (handleSearch_catch (OtherValue None) (handleSubmit (setInputValue (lit ''cafes'') (mount True)))))
   \<and> \<not> isLoading (state (handleSearch_catch (OtherValue None) (handleSubmit (setInputValue (lit ''cafes'') (mount True)))))
   \<and> showLanding (render (mount True))"
proof -
  have r: "run (mount True) [Change (lit ''cafes''), Submit, Rejected (OtherValue None)]
     = Some (handleSearch_catch (OtherValue None) (handleSubmit (setInputValue (lit ''cafes'') (mount True))))"
    by (simp add: trim_eval render_def mount_def initialState_def handler_defs)
  have e: "showError (render (handleSearch_catch (OtherValue None) (handleSubmit (setInputValue (lit ''cafes'') (mount True)))))"
    by (simp add: render_def handleSearch_catch_def errorTruthy_def errorMessage_def truthy_def lit_simps)
  have n: "error (state (handleSearch_catch (OtherValue None) (handleSubmit (setInputValue (lit ''cafes'') (mount True))))) \<noteq> None"
    by (simp add: handleSearch_catch_def)
  have l: "showLanding (render (mount True))"
    by (simp add: render_def mount_def initialState_def errorTruthy_def truthy_def)
  show ?thesis
    using r e n l loading_excludes_error [OF r] by blast
qed

section \<open>Geolocation\<close>

text \<open>
  C7. Take a run in which the geolocation callback delivers the coordinates after some
  events and other events follow. Every collaborator call dispatched before the callback
  (the first search, when it was dispatched by then) carried no location; every call
  dispatched after it carries the delivered latitude and longitude; the stored location
  stays that one; \<open>getCurrentPosition\<close> was called once, and no second position can
  arrive.
\<close>
theorem geolocation_used_once_resolved:
  assumes "run (mount g) es1 = Some s1"
      and "step s1 (GeoSuccess lat lon) = Some s2"
      and "run s2 es2 = Some s3"
  shows "list_all (\<lambda>c. snd c = None) (searchCalls s1)
       \<and> (\<exists>new. searchCalls s3 = searchCalls s1 @ new
              \<and> list_all (\<lambda>c. snd c = Some \<lparr>latitude = lat, longitude = lon\<rparr>) new)
       \<and> location s3 = Some \<lparr>latitude = lat, longitude = lon\<rparr>
       \<and> geoRequests s3 = 1
       \<and> step s3 (GeoSuccess lat' lon') = None"
proof -
  have inv: "invariant g s1" using assms(1) by (rule reachable_invariant)
  have p: "geoPending s1" using assms(2) by (auto split: if_splits)
  then have g: "g" and l: "location s1 = None" using inv by (auto simp: invariant_def)
  have old: "list_all (\<lambda>c. snd c = None) (searchCalls s1)"
    using inv l by (simp add: invariant_def)
  have s2: "s2 = positionSuccess lat lon s1" using assms(2) p by simp
  then have np: "\<not> geoPending s2" and l2: "location s2 = Some \<lparr>latitude = lat, longitude = lon\<rparr>"
    and c2: "searchCalls s2 = searchCalls s1" and r2: "geoRequests s2 = geoRequests s1"
    by (simp_all add: positionSuccess_def)
  note st = settled_run [OF np assms(3)]
  have r1: "geoRequests s1 = 1" using inv g by (simp add: invariant_def)
  show ?thesis using old st l2 c2 r2 r1 by simp
qed

theorem geolocation_used_once_resolved_witness:
  "map_option searchCalls
     (run (mount True)
        [Change (lit ''cafes''), Submit, GeoSuccess 7 9, Rejected (OtherValue None), Submit])
   = Some [(lit ''cafes'', None), (lit ''cafes'', Some \<lparr>latitude = 7, longitude = 9\<rparr>)]"
proof -
  define s1 where "s1 = handleSubmit (setInputValue (lit ''cafes'') (mount True))"
  define s2 where "s2 = positionSuccess 7 9 s1"
  define s3 where "s3 = handleSubmit (handleSearch_catch (OtherValue None) s2)"
  have r1: "run (mount True) [Change (lit ''cafes''), Submit] = Some s1"
    by (simp add: s1_def render_def mount_def initialState_def setInputValue_def)
  have st: "step s1 (GeoSuccess 7 9) = Some s2"
    by (simp add: s1_def s2_def trim_eval mount_def handler_defs)
  have r3: "run s2 [Rejected (OtherValue None), Submit] = Some s3"
    by (simp add: s1_def s2_def s3_def trim_eval mount_def initialState_def handler_defs render_def)
  have all: "run (mount True)
        [Change (lit ''cafes''), Submit, GeoSuccess 7 9, Rejected (OtherValue None), Submit] = Some s3"
    using r1 st r3 by (simp add: render_def mount_def initialState_def setInputValue_def)
  have c1: "searchCalls s1 = [(lit ''cafes'', None)]"
    by (simp add: s1_def trim_eval mount_def handler_defs)
  have len: "length (searchCalls s3) = 2"
    by (simp add: s1_def s2_def s3_def trim_eval mount_def handler_defs)
  from geolocation_used_once_resolved [OF r1 st r3]
  obtain new where n: "searchCalls s3 = searchCalls s1 @ new"
      "list_all (\<lambda>c. snd c = Some \<lparr>latitude = 7, longitude = 9\<rparr>) new"
    by blast
  have q: "map fst (searchCalls s3) = [lit ''cafes'', lit ''cafes'']"
    by (simp add: s1_def s2_def s3_def trim_eval mount_def handler_defs)
  from n c1 len obtain x where x: "new = [x]"
    by (cases new) auto
  with n q c1 have "searchCalls s3 = [(lit ''cafes'', None), (lit ''cafes'', Some \<lparr>latitude = 7, longitude = 9\<rparr>)]"
    by (cases x) auto
  then show ?thesis using all by simp
qed

section \<open>One search at a time\<close>

text \<open>
  C10. In every reachable state the submit button is rendered disabled exactly when
  \<open>isLoading\<close> is true, at most one collaborator call is outstanding, and while one is
  outstanding \<open>isLoading\<close> is true and the form cannot be submitted: no second query is
  dispatched while a call is in flight.
\<close>
theorem submit_disabled_while_loading:
  assumes "run (mount g) es = Some s"
  shows "submitDisabled (render s) = isLoading (state s)
       \<and> inflight s \<le> 1
       \<and> (inflight s \<noteq> 0 \<longrightarrow> isLoading (state s) \<and> step s Submit = None)
       \<and> (isLoading (state s) \<longrightarrow> step s Submit = None)"
proof -
  have inv: "invariant g s" using assms by (rule reachable_invariant)
  then have a: "inflight s = (if isLoading (state s) then 1 else 0)"
    by (simp add: invariant_def)
  have d: "submitDisabled (render s) = isLoading (state s)" by (simp add: render_def)
  show ?thesis using a d by (auto split: if_splits)
qed

theorem submit_disabled_while_loading_witness:
  "run (mount True) [Change (lit ''cafes''), Submit]
     = Some (handleSubmit (setInputValue (lit ''cafes'') (mount True)))
   \<and> inflight (handleSubmit (setInputValue (lit ''cafes'') (mount True))) = 1
   \<and> submitDisabled (render (handleSubmit (setInputValue (lit ''cafes'') (mount True))))
   \<and> run (mount True) [Change (lit ''cafes''), Submit, Submit] = None"
proof -
  define s where "s = handleSubmit (setInputValue (lit ''cafes'') (mount True))"
  have r: "run (mount True) [Change (lit ''cafes''), Submit] = Some s"
    by (simp add: s_def render_def mount_def initialState_def setInputValue_def)
  have f: "inflight s = 1"
    by (simp add: s_def trim_eval mount_def handler_defs)
  from submit_disabled_while_loading [OF r] f
  have k: "submitDisabled (render s)" "step s Submit = None" by auto
  have "run (mount True) [Change (lit ''cafes''), Submit, Submit] = None"
    using r k(2) by (simp add: render_def mount_def initialState_def setInputValue_def)
  then show ?thesis using r f k unfolding s_def by simp
qed

section \<open>Serialisation of the export\<close>

lemma quoteCodeUnit_plain: "\<not> jsonEscaped c \<Longrightarrow> quoteCodeUnit c = [c]"
  by (auto simp: jsonEscaped_def quoteCodeUnit_def)

lemma quoteCodePoints_verbatim: "jsonVerbatim s \<Longrightarrow> quoteCodePoints s = s"
  by (induction s rule: quoteCodePoints.induct) (auto simp: quoteCodeUnit_plain)

lemma gap2: "replicate 2 x = [x, x]"
  by (simp add: numeral_2_eq_2)

lemma lit_Nil_iff: "lit s = [] \<longleftrightarrow> s = []"
  by (simp add: lit_def)

lemmas quote_eval = QuoteJSONString_def quoteCodeUnit_def isLeadingSurrogate_def
  isTrailingSurrogate_def lit_simps

lemma quote_keys:
  \<open>QuoteJSONString (lit ''title'') = lit ''"title"''\<close>
  \<open>QuoteJSONString (lit ''uri'') = lit ''"uri"''\<close>
  \<open>QuoteJSONString (lit ''summary'') = lit ''"summary"''\<close>
  \<open>QuoteJSONString (lit ''reviewSnippets'') = lit ''"reviewSnippets"''\<close>
  by (simp_all add: quote_eval)

lemma exportText_Nil: "exportText [] = lit ''[]''"
  by (simp add: exportText_def JSON_stringify_def wrapJSON_def lit_simps)

lemma SerializeJSONArray_objects_nonempty:
  "SerializeJSONArray g i (map JObject (p # ps)) \<noteq> []"
  by simp

lemma exportText_Cons:
  "exportText (p # ps) =
     lit ''[\<newline>  ''
     @ join (lit '',\<newline>  '') (SerializeJSONArray (lit ''  '') (lit ''  '') (map JObject (p # ps)))
     @ lit ''\<newline>]''"
proof -
  have g: "replicate (min 10 2) (0x20 :: jschar) = lit ''  ''"
    by (simp add: gap2 lit_simps)
  have "exportText (p # ps)
      = wrapJSON (lit ''  '') [] 0x5B 0x5D
          (SerializeJSONArray (lit ''  '') (lit ''  '') (map JObject (p # ps)))"
    unfolding exportText_def JSON_stringify_def g by simp
  also have "\<dots> = [0x5B, 0x0A] @ lit ''  ''
      @ join ([0x2C, 0x0A] @ lit ''  '')
          (SerializeJSONArray (lit ''  '') (lit ''  '') (map JObject (p # ps)))
      @ [0x0A, 0x5D]"
    unfolding wrapJSON_def
    using SerializeJSONArray_objects_nonempty [of "lit ''  ''" "lit ''  ''" p ps]
    by (simp add: lit_Nil_iff del: SerializeJSONProperty.simps SerializeJSONArray.simps
          SerializeJSONObject.simps join.simps list.map)
  also have "\<dots> = lit ''[\<newline>  ''
     @ join (lit '',\<newline>  '') (SerializeJSONArray (lit ''  '') (lit ''  '') (map JObject (p # ps)))
     @ lit ''\<newline>]''"
    by (simp add: lit_simps del: SerializeJSONProperty.simps SerializeJSONArray.simps
          SerializeJSONObject.simps join.simps list.map)
  finally show ?thesis .
qed

lemma SerializeJSONObject_skips_undefined:
  "SerializeJSONObject g i (filter (\<lambda>kv. snd kv \<noteq> JUndefined) kvs) = SerializeJSONObject g i kvs"
proof (induction kvs)
  case Nil
  show ?case by simp
next
  case (Cons kv kvs)
  obtain k v where kv: "kv = (k, v)" by (cases kv)
  show ?case using Cons kv by (cases v) simp_all
qed

lemma SerializeJSONArray_skips_undefined:
  "SerializeJSONArray g i (map JObject (map (filter (\<lambda>kv. snd kv \<noteq> JUndefined)) rs))
     = SerializeJSONArray g i (map JObject rs)"
  by (induction rs) (simp_all add: SerializeJSONObject_skips_undefined)

lemma exportText_skips_undefined:
  "exportText (map (filter (\<lambda>kv. snd kv \<noteq> JUndefined)) rs) = exportText rs"
  by (simp add: exportText_def JSON_stringify_def SerializeJSONArray_skips_undefined del: map_map)

lemma title_then_uri:
  \<open>SerializeJSONArray (lit ''  '') (lit ''  '')
      [JObject [(lit ''title'', JString t), (lit ''uri'', JString u)]]
   = [lit ''{\<newline>    "title": '' @ QuoteJSONString t @ lit '',\<newline>    "uri": '' @ QuoteJSONString u
      @ lit ''\<newline>  }'']\<close>
  by (simp add: wrapJSON_def quote_keys lit_Nil_iff) (simp add: lit_simps)

lemma uri_then_title:
  \<open>SerializeJSONArray (lit ''  '') (lit ''  '')
      [JObject [(lit ''uri'', JString u), (lit ''title'', JString t)]]
   = [lit ''{\<newline>    "uri": '' @ QuoteJSONString u @ lit '',\<newline>    "title": '' @ QuoteJSONString t
      @ lit ''\<newline>  }'']\<close>
  by (simp add: wrapJSON_def quote_keys lit_Nil_iff) (simp add: lit_simps)

lemma exportText_title_uri:
  \<open>exportText [[(lit ''title'', JString t), (lit ''uri'', JString u)]]
   = lit ''[\<newline>  {\<newline>    "title": '' @ QuoteJSONString t @ lit '',\<newline>    "uri": '' @ QuoteJSONString u
     @ lit ''\<newline>  }\<newline>]''\<close>
  unfolding exportText_Cons using title_then_uri [of t u] by (simp add: lit_simps)

lemma exportText_uri_title:
  \<open>exportText [[(lit ''uri'', JString u), (lit ''title'', JString t)]]
   = lit ''[\<newline>  {\<newline>    "uri": '' @ QuoteJSONString u @ lit '',\<newline>    "title": '' @ QuoteJSONString t
     @ lit ''\<newline>  }\<newline>]''\<close>
  unfolding exportText_Cons using uri_then_title [of u t] by (simp add: lit_simps)

lemma QuoteJSONString_verbatim:
  \<open>jsonVerbatim s \<Longrightarrow> QuoteJSONString s = lit ''"'' @ s @ lit ''"''\<close>
  by (simp add: QuoteJSONString_def quoteCodePoints_verbatim lit_simps)

lemmas surrogate_defs = isSurrogate_def isLeadingSurrogate_def isTrailingSurrogate_def

lemma wellFormed_Cons: "\<not> isSurrogate c \<Longrightarrow> wellFormed (c # s) = wellFormed s"
  by (cases s) (auto simp: isSurrogate_def)

lemma wellFormed_append: "wellFormed a \<Longrightarrow> wellFormed b \<Longrightarrow> wellFormed (a @ b)"
proof (induction a rule: wellFormed.induct)
  case 1
  then show ?case by simp
next
  case (2 c)
  then show ?case by (simp add: wellFormed_Cons)
next
  case (3 c d cs)
  then show ?case by (auto split: if_splits)
qed

lemma wellFormed_plain: "list_all (\<lambda>c. \<not> isSurrogate c) s \<Longrightarrow> wellFormed s"
  by (induction s) (simp_all add: wellFormed_Cons)

lemma ascii_not_surrogate: "c < 0x100 \<Longrightarrow> \<not> isSurrogate (c :: jschar)"
  unfolding surrogate_defs by unat_arith

lemma of_char_word_less: "(of_nat (of_char c) :: jschar) < 0x100"
proof -
  have a: "(of_char c :: nat) < 256" by (rule nat_of_char_less_256)
  have "(of_char c :: nat) mod 65536 = of_char c"
    using a by (intro mod_less) linarith
  then have "unat (of_nat (of_char c :: nat) :: jschar) = of_char c"
    by (simp only: unat_of_nat) simp
  then show ?thesis
    unfolding word_less_nat_alt using a by simp
qed


lemma wellFormed_lit: "wellFormed (lit s)"
proof -
  have "list_all (\<lambda>c. \<not> isSurrogate c) (lit s)"
    unfolding lit_def list_all_iff
    using ascii_not_surrogate [OF of_char_word_less] by auto
  then show ?thesis by (rule wellFormed_plain)
qed

lemma hexLower_ascii: "d \<le> 0xF \<Longrightarrow> hexLower d < 0x100"
  unfolding hexLower_def by (auto; unat_arith)

lemma nibble_le: "(x :: jschar) AND 0xF \<le> 0xF"
  by (rule word_and_le1)

lemma wellFormed_UnicodeEscape: "wellFormed (UnicodeEscape c)"
proof -
  have "list_all (\<lambda>c. \<not> isSurrogate c) (UnicodeEscape c)"
    unfolding UnicodeEscape_def
    by (simp add: ascii_not_surrogate hexLower_ascii nibble_le)
  then show ?thesis by (rule wellFormed_plain)
qed

lemma wellFormed_quoteCodeUnit: "wellFormed (quoteCodeUnit c)"
  unfolding quoteCodeUnit_def
  by (simp add: wellFormed_UnicodeEscape surrogate_defs)

lemma wellFormed_quoteCodePoints: "wellFormed (quoteCodePoints s)"
  by (induction s rule: quoteCodePoints.induct)
     (simp_all add: wellFormed_quoteCodeUnit wellFormed_append)

lemma wellFormed_QuoteJSONString: "wellFormed (QuoteJSONString s)"
proof -
  have "wellFormed ([0x22] @ quoteCodePoints s @ [0x22])"
    by (intro wellFormed_append wellFormed_quoteCodePoints) (simp_all add: ascii_not_surrogate)
  then show ?thesis by (simp add: QuoteJSONString_def)
qed

lemma wellFormed_join:
  "wellFormed sep \<Longrightarrow> list_all wellFormed xs \<Longrightarrow> wellFormed (join sep xs)"
  by (induction sep xs rule: join.induct) (simp_all add: wellFormed_append)


lemma wellFormed_wrapJSON:
  assumes "wellFormed gap" "wellFormed stepback" "opening < 0x100" "closing < 0x100"
      and "list_all wellFormed partial"
  shows "wellFormed (wrapJSON gap stepback opening closing partial)"
proof -
  have o: "wellFormed [opening]" "wellFormed [closing]" "wellFormed [0x0A]" "wellFormed [0x2C]"
    using assms(3,4) by (simp_all add: ascii_not_surrogate)
  have i: "wellFormed (stepback @ gap)" using assms(1,2) by (simp add: wellFormed_append)
  have s: "wellFormed ([0x2C] @ [0x0A] @ (stepback @ gap))"
    by (intro wellFormed_append o i)
  have a: "wellFormed ([opening] @ [closing])"
    by (intro wellFormed_append o)
  have b: "wellFormed ([opening] @ join [0x2C] partial @ [closing])"
    by (intro wellFormed_append wellFormed_join o assms(5))
  have c: "wellFormed ([opening] @ [0x0A] @ (stepback @ gap)
             @ join ([0x2C] @ [0x0A] @ (stepback @ gap)) partial @ [0x0A] @ stepback @ [closing])"
    by (intro wellFormed_append wellFormed_join o i s assms(2,5))
  show ?thesis using a b c by (simp add: wrapJSON_def del: wellFormed.simps)
qed

lemma wellFormed_Serialize:
  "wellFormed gap \<Longrightarrow> wellFormed indent \<Longrightarrow>
     SerializeJSONProperty gap indent v = Some t \<Longrightarrow> wellFormed t"
  "wellFormed gap \<Longrightarrow> wellFormed indent \<Longrightarrow> list_all wellFormed (SerializeJSONArray gap indent xs)"
  "wellFormed gap \<Longrightarrow> wellFormed indent \<Longrightarrow> list_all wellFormed (SerializeJSONObject gap indent kvs)"
proof (induction gap indent v and gap indent xs and gap indent kvs arbitrary: t
       rule: SerializeJSONProperty_SerializeJSONArray_SerializeJSONObject.induct)
  case (1 gap indent)
  then show ?case by simp
next
  case (2 gap indent s)
  then show ?case by (auto simp: wellFormed_QuoteJSONString)
next
  case (3 gap indent xs)
  then show ?case by (auto simp: wellFormed_wrapJSON wellFormed_append)
next
  case (4 gap indent kvs)
  then show ?case by (auto simp: wellFormed_wrapJSON wellFormed_append)
next
  case (5 gap indent)
  show ?case by simp
next
  case (6 gap indent x xs)
  then show ?case by (auto simp: wellFormed_lit split: option.splits)
next
  case (7 gap indent)
  show ?case by simp
next
  case (8 gap indent k v kvs)
  show ?case
  proof (cases "SerializeJSONProperty gap indent v")
    case None
    then show ?thesis using 8 by simp
  next
    case (Some u)
    have w: "wellFormed u" using 8(1) [OF 8(4) 8(5) Some] .
    have m: "wellFormed (QuoteJSONString k @ [0x3A] @ (if gap = [] then [] else [0x20]) @ u)"
      using w by (intro wellFormed_append wellFormed_QuoteJSONString) (simp_all add: ascii_not_surrogate)
    show ?thesis using 8(3) [OF Some 8(4) 8(5)] m Some by simp
  qed
qed

lemma wellFormed_exportText: "wellFormed (exportText rs)"
proof -
  have g: "wellFormed (replicate (min 10 2) (0x20 :: jschar))"
    by (simp add: gap2 ascii_not_surrogate)
  obtain t where t: "JSON_stringify (JArray (map JObject rs)) 2 = Some t"
    by (simp add: JSON_stringify_def)
  then have "wellFormed t"
    unfolding JSON_stringify_def using wellFormed_Serialize(1) [OF g _ t [unfolded JSON_stringify_def]]
    by simp
  then show ?thesis using t by (simp add: exportText_def)
qed

lemma unreserved_not_surrogate: "uriUnreserved c \<Longrightarrow> \<not> isSurrogate c"
proof -
  assume "uriUnreserved c"
  then have "c < 0x100" unfolding uriUnreserved_def by (auto; unat_arith)
  then show ?thesis by (rule ascii_not_surrogate)
qed

lemma encodeURIComponent_wellFormed:
  "wellFormed s \<Longrightarrow> \<exists>e. encodeURIComponent s = Some e"
proof (induction s rule: encodeURIComponent.induct)
  case 1
  show ?case by simp
next
  case (2 c)
  then show ?case by (simp add: isSurrogate_def)
next
  case (3 c d cs)
  show ?case
  proof (cases "uriUnreserved c")
    case True
    then have "wellFormed (d # cs)"
      using 3(4) unreserved_not_surrogate [OF True] by (simp add: isSurrogate_def)
    with 3(1) True show ?thesis by auto
  next
    case False
    show ?thesis
    proof (cases "isLeadingSurrogate c")
      case lead: True
      then have t: "isTrailingSurrogate d" and w: "wellFormed cs"
        using 3(4) by (auto simp: isSurrogate_def split: if_splits)
      with 3(2) False lead show ?thesis by auto
    next
      case nolead: False
      then have n: "\<not> isTrailingSurrogate c" and w: "wellFormed (d # cs)"
        using 3(4) by (auto simp: isSurrogate_def split: if_splits)
      with 3(3) False nolead show ?thesis by auto
    qed
  qed
qed

lemma downloadResults_link:
  "\<exists>encoded. encodeURIComponent (exportText (results (state app))) = Some encoded
     \<and> downloadResults app =
         app\<lparr>downloads := downloads app @
           [\<lparr>href = lit ''data:application/json;charset=utf-8,'' @ encoded,
             download = lit ''map_data_export.json''\<rparr>]\<rparr>"
proof -
  obtain e where "encodeURIComponent (exportText (results (state app))) = Some e"
    using encodeURIComponent_wellFormed [OF wellFormed_exportText] by blast
  then show ?thesis by (simp add: downloadResults_def)
qed

lemma length_UnicodeEscape: "length (UnicodeEscape c) = 6"
  by (simp add: UnicodeEscape_def)

lemma length_quoteCodeUnit: "1 \<le> length (quoteCodeUnit c)"
  by (simp add: quoteCodeUnit_def length_UnicodeEscape)

lemma length_quoteCodeUnit_escaped: "jsonEscaped c \<Longrightarrow> 2 \<le> length (quoteCodeUnit c)"
  by (auto simp: quoteCodeUnit_def jsonEscaped_def length_UnicodeEscape)

lemma length_quoteCodePoints: "length s \<le> length (quoteCodePoints s)"
proof (induction s rule: quoteCodePoints.induct)
  case 1
  show ?case by simp
next
  case (2 c)
  show ?case using length_quoteCodeUnit [of c] by simp
next
  case (3 c d cs)
  then show ?case using length_quoteCodeUnit [of c] by (auto split: if_splits)
qed

lemma quoteCodePoints_fixed: "quoteCodePoints s = s \<Longrightarrow> jsonVerbatim s"
proof (induction s rule: quoteCodePoints.induct)
  case 1
  show ?case by simp
next
  case (2 c)
  then have "length (quoteCodeUnit c) = 1" by simp
  then show ?case using length_quoteCodeUnit_escaped [of c] by auto
next
  case (3 c d cs)
  show ?case
  proof (cases "isLeadingSurrogate c \<and> isTrailingSurrogate d")
    case True
    then show ?thesis using 3 by simp
  next
    case False
    then have eq: "quoteCodeUnit c @ quoteCodePoints (d # cs) = c # d # cs"
      using 3(3) by auto
    then have "length (quoteCodeUnit c) + length (quoteCodePoints (d # cs)) = Suc (length (d # cs))"
      by (metis length_append length_Cons)
    then have "length (quoteCodeUnit c) \<le> 1"
      using length_quoteCodePoints [of "d # cs"] by linarith
    then have ne: "\<not> jsonEscaped c"
      using length_quoteCodeUnit_escaped [of c] by auto
    then have "quoteCodePoints (d # cs) = d # cs"
      using eq by (simp add: quoteCodeUnit_plain)
    then show ?thesis using 3(2) False ne by auto
  qed
qed

lemma QuoteJSONString_verbatim_iff:
  \<open>QuoteJSONString s = lit ''"'' @ s @ lit ''"'' \<longleftrightarrow> jsonVerbatim s\<close>
  using quoteCodePoints_fixed [of s] quoteCodePoints_verbatim [of s]
  by (auto simp: QuoteJSONString_def lit_simps)

text \<open>
  C8, as stated, fails for a title that JSON has to escape: for the title \<open>a"b\<close> the
  export writes a backslash before the double quote, so the title does not occur
  verbatim in the serialised text.
\<close>

theorem export_verbatim_counterexample:
  \<open>isPlaceResult [(lit ''title'', JString (lit ''a"b'')), (lit ''uri'', JString (lit ''https://x''))]
   \<and> exportText [[(lit ''title'', JString (lit ''a"b'')), (lit ''uri'', JString (lit ''https://x''))]]
     = lit ''[\<newline>  {\<newline>    "title": "a'' @ [0x5C] @ lit ''"b",\<newline>    "uri": "https://x"\<newline>  }\<newline>]''
   \<and> \<not> sublist (lit ''a"b'')
        (exportText [[(lit ''title'', JString (lit ''a"b'')), (lit ''uri'', JString (lit ''https://x''))]])\<close>
  by code_simp

text \<open>
  C8, amended. The export serialises the results with \<open>JSON.stringify(results, null, 2)\<close>:
  the text for no results is \<open>[]\<close>; a non-empty list is written one element per line,
  indented by two spaces, between brackets on lines of their own; a result with only
  \<open>title\<close> and \<open>uri\<close> is written with exactly these two members, four spaces deep, in the
  order in which the object got its properties (title first for \<open>{title, uri}\<close>, uri first
  for \<open>{uri, title}\<close>), each value as a JSON string literal, and no member for an optional
  field that is absent or \<open>undefined\<close>. The literal is the value itself between double
  quotes exactly when the value has no code point that JSON escapes (a control character,
  a double quote, a backslash, a surrogate that stands alone). For every state the action
  clicks one link whose \<open>download\<close> attribute is \<open>map_data_export.json\<close> and whose \<open>href\<close>
  is the data URI of the serialised text; \<open>encodeURIComponent\<close> never raises on it.
\<close>

theorem export_pretty_printed_json:
  \<open>exportText [] = lit ''[]''
   \<and> exportText (p # ps)
       = lit ''[\<newline>  ''
         @ join (lit '',\<newline>  '')
             (SerializeJSONArray (lit ''  '') (lit ''  '') (map JObject (p # ps)))
         @ lit ''\<newline>]''
   \<and> exportText [[(lit ''title'', JString t), (lit ''uri'', JString u)]]
       = lit ''[\<newline>  {\<newline>    "title": '' @ QuoteJSONString t
         @ lit '',\<newline>    "uri": '' @ QuoteJSONString u @ lit ''\<newline>  }\<newline>]''
   \<and> exportText [[(lit ''uri'', JString u), (lit ''title'', JString t)]]
       = lit ''[\<newline>  {\<newline>    "uri": '' @ QuoteJSONString u
         @ lit '',\<newline>    "title": '' @ QuoteJSONString t @ lit ''\<newline>  }\<newline>]''
   \<and> exportText (map (filter (\<lambda>kv. snd kv \<noteq> JUndefined)) rs) = exportText rs
   \<and> (QuoteJSONString t = lit ''"'' @ t @ lit ''"'' \<longleftrightarrow> jsonVerbatim t)
   \<and> (jsonVerbatim t \<and> jsonVerbatim u \<longrightarrow>
        exportText [[(lit ''title'', JString t), (lit ''uri'', JString u)]]
          = lit ''[\<newline>  {\<newline>    "title": "'' @ t @ lit ''",\<newline>    "uri": "'' @ u
            @ lit ''"\<newline>  }\<newline>]''
        \<and> exportText [[(lit ''uri'', JString u), (lit ''title'', JString t)]]
          = lit ''[\<newline>  {\<newline>    "uri": "'' @ u @ lit ''",\<newline>    "title": "'' @ t
            @ lit ''"\<newline>  }\<newline>]'')
   \<and> (\<exists>encoded. encodeURIComponent (exportText (results (state app))) = Some encoded
        \<and> downloadResults app =
            app\<lparr>downloads := downloads app @
              [\<lparr>href = lit ''data:application/json;charset=utf-8,'' @ encoded,
                download = lit ''map_data_export.json''\<rparr>]\<rparr>)\<close>
proof -
  have v1: \<open>exportText [[(lit ''title'', JString t), (lit ''uri'', JString u)]]
          = lit ''[\<newline>  {\<newline>    "title": "'' @ t @ lit ''",\<newline>    "uri": "'' @ u
            @ lit ''"\<newline>  }\<newline>]''\<close> if "jsonVerbatim t" "jsonVerbatim u"
    unfolding exportText_title_uri using that
    by (simp add: QuoteJSONString_verbatim lit_simps)
  have v2: \<open>exportText [[(lit ''uri'', JString u), (lit ''title'', JString t)]]
          = lit ''[\<newline>  {\<newline>    "uri": "'' @ u @ lit ''",\<newline>    "title": "'' @ t
            @ lit ''"\<newline>  }\<newline>]''\<close> if "jsonVerbatim t" "jsonVerbatim u"
    unfolding exportText_uri_title using that
    by (simp add: QuoteJSONString_verbatim lit_simps)
  show ?thesis
    using exportText_Nil exportText_Cons [of p ps] exportText_title_uri [of t u]
      exportText_uri_title [of u t] exportText_skips_undefined [of rs]
      QuoteJSONString_verbatim_iff [of t] v1 v2 downloadResults_link [of app]
    by blast
qed

theorem export_pretty_printed_json_witness:
  \<open>jsonVerbatim (lit ''Joe's Cafe'') \<and> jsonVerbatim (lit ''https://x'')
   \<and> isPlaceResult cafe
   \<and> exportText [cafe]
       = lit ''[\<newline>  {\<newline>    "title": "Joe's Cafe",\<newline>    "uri": "https://x"\<newline>  }\<newline>]''
   \<and> exportText [[(lit ''uri'', JString (lit ''https://x'')), (lit ''title'', JString (lit ''Joe's Cafe''))]]
       = lit ''[\<newline>  {\<newline>    "uri": "https://x",\<newline>    "title": "Joe's Cafe"\<newline>  }\<newline>]''
   \<and> downloads (downloadResults (mount True))
       = [\<lparr>href = lit ''data:application/json;charset=utf-8,%5B%5D'',
           download = lit ''map_data_export.json''\<rparr>]\<close>
proof -
  have a: "jsonVerbatim (lit ''Joe's Cafe'')" "jsonVerbatim (lit ''https://x'')"
    by (simp_all add: lit_simps jsonEscaped_def isLeadingSurrogate_def isTrailingSurrogate_def)
  have t: "isPlaceResult cafe"
    by (simp add: isPlaceResult_def cafe_def getProperty_def isString_def lit_simps)
  note th = export_pretty_printed_json [where t = "lit ''Joe's Cafe''" and u = "lit ''https://x''"]
  have e1: \<open>exportText [cafe]
       = lit ''[\<newline>  {\<newline>    "title": "'' @ lit ''Joe's Cafe'' @ lit ''",\<newline>    "uri": "''
         @ lit ''https://x'' @ lit ''"\<newline>  }\<newline>]''\<close>
    using a th unfolding cafe_def by blast
  have e2: \<open>exportText [[(lit ''uri'', JString (lit ''https://x'')), (lit ''title'', JString (lit ''Joe's Cafe''))]]
       = lit ''[\<newline>  {\<newline>    "uri": "'' @ lit ''https://x'' @ lit ''",\<newline>    "title": "''
         @ lit ''Joe's Cafe'' @ lit ''"\<newline>  }\<newline>]''\<close>
    using a th by blast
  have n: "exportText (results (state (mount True))) = lit ''[]''"
    using export_pretty_printed_json by (simp add: mount_def initialState_def)
  have u: "encodeURIComponent (lit ''[]'') = Some (lit ''%5B%5D'')"
    by (simp add: lit_simps uriUnreserved_def isLeadingSurrogate_def isTrailingSurrogate_def
          percentEncode_def utf8_def percentOctet_def hexUpper_def)
  have d: "downloads (downloadResults (mount True))
       = [\<lparr>href = lit ''data:application/json;charset=utf-8,%5B%5D'',
           download = lit ''map_data_export.json''\<rparr>]"
    by (simp add: downloadResults_def n u) (simp add: mount_def lit_def)
  show ?thesis using a t e1 e2 d by (simp add: lit_def)
qed

end
